theory Spec2Isabelle
  imports Main "HOL-Library.Multiset"
begin

section \<open>Values exchanged with the weather provider\<close>

text \<open>
  The object returned by \<^verbatim>\<open>response.json()\<close>: a Python value built from \<^verbatim>\<open>None\<close>,
  booleans, integers, strings, lists and dictionaries. A dictionary is kept as the list of
  its items. Numbers are integers; floating-point numbers are outside the model.
\<close>

datatype jvalue =
    JNull
  | JBool bool
  | JNum int
  | JStr string
  | JArr "jvalue list"
  | JObj "(string \<times> jvalue) list"

text \<open>A cell of an output list or of a weather column: \<^verbatim>\<open>np.nan\<close> or a parsed value.\<close>

datatype cell = NaN | Val jvalue

datatype key = StrKey string | IntKey int

text \<open>The exceptions that leave \<^verbatim>\<open>get_weather\<close> and \<^verbatim>\<open>select_cities\<close> uncaught.\<close>

datatype exn =
    RequestException
  | JSONDecodeError
  | KeyError key
  | IndexError
  | TypeError
  | UnboundLocalError
  | ValueError
  | OverflowError
  | RenderError

text \<open>
  A \<^verbatim>\<open>requests.Response\<close>: its status code, its body as text, and the result of
  \<^verbatim>\<open>response.json()\<close>, which is \<open>None\<close> when the body is not valid JSON and the call
  raises.
\<close>

record response =
  status_code :: int
  resp_text :: string
  json :: "jvalue option"

text \<open>Subscription \<^verbatim>\<open>obj[k]\<close> with a string key, as Python evaluates it on a parsed value.\<close>

fun getitem_str :: "jvalue \<Rightarrow> string \<Rightarrow> exn + jvalue" where
  "getitem_str (JObj kvs) k =
     (case map_of kvs k of None \<Rightarrow> Inl (KeyError (StrKey k)) | Some v \<Rightarrow> Inr v)"
| "getitem_str _ k = Inl TypeError"

text \<open>
  Subscription \<^verbatim>\<open>obj[0]\<close>: the first element of a list, the first character of a string,
  a missing key of a dictionary (whose keys are all strings), a type error elsewhere.
\<close>

fun getitem_0 :: "jvalue \<Rightarrow> exn + jvalue" where
  "getitem_0 (JArr []) = Inl IndexError"
| "getitem_0 (JArr (x # xs)) = Inr x"
| "getitem_0 (JStr []) = Inl IndexError"
| "getitem_0 (JStr (c # cs)) = Inr (JStr [c])"
| "getitem_0 (JObj kvs) = Inl (KeyError (IntKey 0))"
| "getitem_0 _ = Inl TypeError"

text \<open>\<^verbatim>\<open>resp_j['weather'][0]['main']\<close>\<close>

definition weather_0_main :: "jvalue \<Rightarrow> exn + jvalue" where
  "weather_0_main resp =
     (case getitem_str resp ''weather'' of
        Inl e \<Rightarrow> Inl e
      | Inr ws \<Rightarrow>
          (case getitem_0 ws of
             Inl e \<Rightarrow> Inl e
           | Inr w0 \<Rightarrow> getitem_str w0 ''main''))"

text \<open>\<^verbatim>\<open>resp_j['clouds']['all']\<close>\<close>

definition clouds_all :: "jvalue \<Rightarrow> exn + jvalue" where
  "clouds_all resp =
     (case getitem_str resp ''clouds'' of
        Inl e \<Rightarrow> Inl e
      | Inr c \<Rightarrow> getitem_str c ''all'')"

section \<open>Tables\<close>

text \<open>
  A row of the populated-places file and a row of the city-ID catalog, with the columns the
  program reads. Names and country codes are strings, populations and IDs integers.
\<close>

record place =
  nameascii :: string
  iso_a2 :: string
  pop_max :: int

record cityid =
  name :: string
  country :: string
  id_col :: int

text \<open>A row of the merged table carries the columns of both sides.\<close>

record joined =
  left_row :: place
  right_row :: cityid

text \<open>A row of the selection once the three weather columns are assigned.\<close>

record sel_row = joined +
  weather :: cell
  weather_description :: cell
  clouds :: cell

section \<open>Effects\<close>

text \<open>
  The two plot titles: \<^verbatim>\<open>'Cloud % coverage of {} most populated cities'.format(selection)\<close>
  and \<^verbatim>\<open>'Location of selected clear sky city on {}'.format(timestr)\<close>.
\<close>

datatype title = TitleClouds int | TitleClear string

text \<open>
  What the program does to the outside, in order: a GET request for a city ID, the two
  \<^verbatim>\<open>print\<close> calls of the failure branch, and a call of \<^verbatim>\<open>plot_on_map\<close>.
\<close>

datatype event =
    HttpGet int
  | PrintNotSuccessful int
  | PrintStatus int string
  | Plot title "sel_row list"

text \<open>
  The collaborators whose results the program does not determine:
  \<^item> \<open>sort_values\<close> is \<^verbatim>\<open>cities_data.sort_values('pop_max', ascending=False)\<close>;
  \<^item> \<open>requests_get n url city_id\<close> is the \<open>n\<close>-th call
    \<^verbatim>\<open>requests.get(API_URL.format(city_id))\<close> of the run, which raises or gives a response;
  \<^item> \<open>strftime_localtime\<close> is
    \<^verbatim>\<open>time.strftime("%D %H:%M", time.localtime(int(format(resp_time))))\<close>, which depends on
    the local time zone and raises on a value that is not an integer in range;
  \<^item> \<open>render\<close> is the drawing done by \<^verbatim>\<open>plot_on_map\<close>; \<open>Some e\<close> means it raised.
\<close>

record world =
  sort_values :: "place list \<Rightarrow> place list"
  requests_get :: "nat \<Rightarrow> string \<Rightarrow> int \<Rightarrow> exn + response"
  strftime_localtime :: "jvalue \<Rightarrow> exn + string"
  render :: "sel_row list \<Rightarrow> title \<Rightarrow> exn option"

text \<open>
  The sort uses the default \<^verbatim>\<open>quicksort\<close>, which is not stable: any rearrangement of the
  rows in non-increasing order of \<^verbatim>\<open>pop_max\<close> is a possible result.
\<close>

definition sort_values_ok :: "world \<Rightarrow> place list \<Rightarrow> bool" where
  "sort_values_ok w cities_data \<longleftrightarrow>
     mset (sort_values w cities_data) = mset cities_data \<and>
     sorted_wrt (\<lambda>a b. pop_max b \<le> pop_max a) (sort_values w cities_data)"

section \<open>get\_weather\<close>

text \<open>
  The local variables of \<^verbatim>\<open>get_weather\<close> and the effects so far. \<open>resp_j\<close> is \<open>None\<close>
  until the first assignment in the loop body.
\<close>

record loop_state =
  weath_main :: "cell list"
  weath_desc :: "cell list"
  cloud_cov :: "cell list"
  resp_j :: "jvalue option"
  trace :: "event list"

definition init_state :: loop_state where
  "init_state = \<lparr>weath_main = [], weath_desc = [], cloud_cov = [], resp_j = None, trace = []\<rparr>"

text \<open>
  One pass through the body of the \<^verbatim>\<open>for\<close> loop for the \<open>n\<close>-th ID. The result is the
  state reached and the exception raised there, if any.
\<close>

definition loop_body :: "world \<Rightarrow> string \<Rightarrow> nat \<Rightarrow> int \<Rightarrow> loop_state \<Rightarrow> loop_state \<times> exn option" where
  "loop_body w API_URL n city_id s =
     (let s1 = s\<lparr>trace := trace s @ [HttpGet city_id]\<rparr> in
      case requests_get w n API_URL city_id of
        Inl e \<Rightarrow> (s1, Some e)
      | Inr response \<Rightarrow>
          (case json response of
             None \<Rightarrow> (s1, Some JSONDecodeError)
           | Some j \<Rightarrow>
               (let s2 = s1\<lparr>resp_j := Some j\<rparr> in
                if status_code response = 200 then
                  (case weather_0_main j of
                     Inl e \<Rightarrow> (s2, Some e)
                   | Inr m \<Rightarrow>
                       (let s3 = s2\<lparr>weath_main := weath_main s2 @ [Val m]\<rparr> in
                        case weather_0_main j of
                          Inl e \<Rightarrow> (s3, Some e)
                        | Inr d \<Rightarrow>
                            (let s4 = s3\<lparr>weath_desc := weath_desc s3 @ [Val d]\<rparr> in
                             case clouds_all j of
                               Inl e \<Rightarrow> (s4, Some e)
                             | Inr c \<Rightarrow> (s4\<lparr>cloud_cov := cloud_cov s4 @ [Val c]\<rparr>, None))))
                else
                  (s2\<lparr>trace := trace s2 @
                         [PrintNotSuccessful city_id,
                          PrintStatus (status_code response) (resp_text response)],
                       weath_main := weath_main s2 @ [NaN],
                       weath_desc := weath_desc s2 @ [NaN],
                       cloud_cov := cloud_cov s2 @ [NaN]\<rparr>, None))))"

fun get_weather_loop ::
  "world \<Rightarrow> string \<Rightarrow> nat \<Rightarrow> int list \<Rightarrow> loop_state \<Rightarrow> loop_state \<times> exn option" where
  "get_weather_loop w API_URL n [] s = (s, None)"
| "get_weather_loop w API_URL n (city_id # rest) s =
     (case loop_body w API_URL n city_id s of
        (s', Some e) \<Rightarrow> (s', Some e)
      | (s', None) \<Rightarrow> get_weather_loop w API_URL (Suc n) rest s')"

text \<open>
  The function returns its effects together with either the exception that ended it or the
  tuple \<^verbatim>\<open>(cloud_cov, weath_desc, weath_main, resp_j['dt'])\<close>.
\<close>

definition get_weather ::
  "world \<Rightarrow> string \<Rightarrow> int list \<Rightarrow>
     event list \<times> (exn + cell list \<times> cell list \<times> cell list \<times> jvalue)" where
  "get_weather w API_URL id_list =
     (case get_weather_loop w API_URL 0 id_list init_state of
        (s, Some e) \<Rightarrow> (trace s, Inl e)
      | (s, None) \<Rightarrow>
          (case resp_j s of
             None \<Rightarrow> (trace s, Inl UnboundLocalError)
           | Some j \<Rightarrow>
               (case getitem_str j ''dt'' of
                  Inl e \<Rightarrow> (trace s, Inl e)
                | Inr dt \<Rightarrow> (trace s, Inr (cloud_cov s, weath_desc s, weath_main s, dt)))))"

section \<open>select\_cities\<close>

text \<open>
  \<^verbatim>\<open>sorted_cities.merge(cities_id, how='inner', left_on='nameascii', right_on='name')\<close>:
  an inner join that keeps the order of the left rows; a left row that matches several
  catalog rows gives one merged row for each, in catalog order.
\<close>

definition merge :: "place list \<Rightarrow> cityid list \<Rightarrow> joined list" where
  "merge left right =
     concat (map (\<lambda>l. map (\<lambda>r. \<lparr>left_row = l, right_row = r\<rparr>)
                          (filter (\<lambda>r. nameascii l = name r) right)) left)"

text \<open>
  \<^verbatim>\<open>drop_duplicates(subset='nameascii', keep='first')\<close>: a row is dropped when an earlier
  row has the same name. \<open>seen\<close> holds the names met so far.
\<close>

fun drop_duplicates :: "string list \<Rightarrow> joined list \<Rightarrow> joined list" where
  "drop_duplicates seen [] = []"
| "drop_duplicates seen (x # xs) =
     (if nameascii (left_row x) \<in> set seen then drop_duplicates seen xs
      else x # drop_duplicates (nameascii (left_row x) # seen) xs)"

text \<open>
  The slice \<^verbatim>\<open>rows[0:selection]\<close>: a negative bound counts from the end of the table.
\<close>

definition slice_to :: "int \<Rightarrow> 'a list \<Rightarrow> 'a list" where
  "slice_to selection rows =
     (if selection < 0 then take (nat (int (length rows) + selection)) rows
      else take (nat selection) rows)"

definition fulldataset :: "world \<Rightarrow> place list \<Rightarrow> cityid list \<Rightarrow> joined list" where
  "fulldataset w cities_data cities_id = merge (sort_values w cities_data) cities_id"

definition full_dataset :: "world \<Rightarrow> place list \<Rightarrow> cityid list \<Rightarrow> joined list" where
  "full_dataset w cities_data cities_id =
     filter (\<lambda>x. iso_a2 (left_row x) = country (right_row x)) (fulldataset w cities_data cities_id)"

definition clear_dataset :: "world \<Rightarrow> place list \<Rightarrow> cityid list \<Rightarrow> joined list" where
  "clear_dataset w cities_data cities_id = drop_duplicates [] (full_dataset w cities_data cities_id)"

definition sel_dataset :: "world \<Rightarrow> int \<Rightarrow> place list \<Rightarrow> cityid list \<Rightarrow> joined list" where
  "sel_dataset w selection cities_data cities_id =
     slice_to selection (clear_dataset w cities_data cities_id)"

definition api_path :: string where
  "api_path = ''http://api.openweathermap.org/data/2.5/weather?id={}&APPID=''"

text \<open>
  The three column assignments \<^verbatim>\<open>sel_dataset.loc[:, c] = values\<close>; each raises when the
  list does not have one value for each row.
\<close>

definition add_columns ::
  "joined list \<Rightarrow> cell list \<Rightarrow> cell list \<Rightarrow> cell list \<Rightarrow> exn + sel_row list" where
  "add_columns rows wm wd cc =
     (if length wm \<noteq> length rows then Inl ValueError
      else if length wd \<noteq> length rows then Inl ValueError
      else if length cc \<noteq> length rows then Inl ValueError
      else Inr (map (\<lambda>(x, m, d, c).
                  \<lparr>left_row = left_row x, right_row = right_row x,
                   weather = m, weather_description = d, clouds = c\<rparr>)
                (zip rows (zip wm (zip wd cc)))))"

text \<open>
  \<^verbatim>\<open>fillna('No data')\<close> replaces the missing values, \<^verbatim>\<open>np.nan\<close> and \<^verbatim>\<open>None\<close>. The
  columns of the two files hold no missing value in this model, so only the weather columns
  change.
\<close>

fun fillna_cell :: "cell \<Rightarrow> cell" where
  "fillna_cell NaN = Val (JStr ''No data'')"
| "fillna_cell (Val JNull) = Val (JStr ''No data'')"
| "fillna_cell c = c"

definition fillna :: "sel_row list \<Rightarrow> sel_row list" where
  "fillna rows =
     map (\<lambda>x. x\<lparr>weather := fillna_cell (weather x),
                weather_description := fillna_cell (weather_description x),
                clouds := fillna_cell (clouds x)\<rparr>) rows"

text \<open>
  \<^verbatim>\<open>plot_on_map(dataset, title)\<close>: the call is an effect of the run, and the drawing may
  raise.
\<close>

definition plot_on_map :: "world \<Rightarrow> sel_row list \<Rightarrow> title \<Rightarrow> event list \<times> exn option" where
  "plot_on_map w dataset ttl = ([Plot ttl dataset], render w dataset ttl)"

text \<open>
  The body of \<^verbatim>\<open>select_cities\<close> up to \<open>final_dataset\<close>, from the two tables as loaded.
  The result is the effects of the run and either the exception that ended it or the rows
  of \<open>final_dataset\<close>. The lists returned by \<^verbatim>\<open>get_weather\<close> are \<open>cc\<close>, \<open>wd\<close> and
  \<open>wm\<close> here.
\<close>

definition final_dataset ::
  "world \<Rightarrow> int \<Rightarrow> string \<Rightarrow> place list \<Rightarrow> cityid list \<Rightarrow> event list \<times> (exn + sel_row list)" where
  "final_dataset w selection appid cities_data cities_id =
     (let sel = sel_dataset w selection cities_data cities_id;
          id_list = map (\<lambda>x. id_col (right_row x)) sel;
          API_URL = api_path @ appid
      in case get_weather w API_URL id_list of
           (t1, Inl e) \<Rightarrow> (t1, Inl e)
         | (t1, Inr (cc, wd, wm, resp_time)) \<Rightarrow>
             (case strftime_localtime w resp_time of
                Inl e \<Rightarrow> (t1, Inl e)
              | Inr timestr \<Rightarrow>
                  (case add_columns sel wm wd cc of
                     Inl e \<Rightarrow> (t1, Inl e)
                   | Inr rows \<Rightarrow>
                       (let filled = fillna rows in
                        case plot_on_map w filled (TitleClouds selection) of
                          (t2, Some e) \<Rightarrow> (t1 @ t2, Inl e)
                        | (t2, None) \<Rightarrow>
                            (let final = filter (\<lambda>x. weather x = Val (JStr ''Clear'')) filled in
                             case plot_on_map w final (TitleClear timestr) of
                               (t3, Some e) \<Rightarrow> (t1 @ t2 @ t3, Inl e)
                             | (t3, None) \<Rightarrow> (t1 @ t2 @ t3, Inr final))))))"

text \<open>The returned table \<^verbatim>\<open>final_dataset[['nameascii', 'clouds']]\<close>.\<close>

definition project :: "sel_row \<Rightarrow> string \<times> cell" where
  "project x = (nameascii (left_row x), clouds x)"

definition select_cities ::
  "world \<Rightarrow> int \<Rightarrow> string \<Rightarrow> place list \<Rightarrow> cityid list \<Rightarrow> event list \<times> (exn + (string \<times> cell) list)" where
  "select_cities w selection appid cities_data cities_id =
     (case final_dataset w selection appid cities_data cities_id of
        (t, Inl e) \<Rightarrow> (t, Inl e)
      | (t, Inr final) \<Rightarrow> (t, Inr (map project final)))"

section \<open>Notions used to state the properties\<close>

text \<open>
  The three values that one response contributes to the output lists, in the order
  cloud cover, description, main category; \<open>None\<close> when handling the response raises.
\<close>

definition entry_of :: "response \<Rightarrow> (cell \<times> cell \<times> cell) option" where
  "entry_of r =
     (case json r of
        None \<Rightarrow> None
      | Some j \<Rightarrow>
          if status_code r = 200 then
            (case weather_0_main j of
               Inl e \<Rightarrow> None
             | Inr m \<Rightarrow> (case clouds_all j of Inl e \<Rightarrow> None | Inr c \<Rightarrow> Some (Val c, Val m, Val m)))
          else Some (NaN, NaN, NaN))"

definition fetch_entry :: "world \<Rightarrow> string \<Rightarrow> nat \<Rightarrow> int \<Rightarrow> (cell \<times> cell \<times> cell) option" where
  "fetch_entry w API_URL n city_id =
     (case requests_get w n API_URL city_id of Inl e \<Rightarrow> None | Inr r \<Rightarrow> entry_of r)"

text \<open>The two country-code columns of a merged row agree.\<close>

definition codes_match :: "'a joined_scheme \<Rightarrow> bool" where
  "codes_match x \<longleftrightarrow> iso_a2 (left_row x) = country (right_row x)"

section \<open>A concrete provider and concrete tables\<close>

definition body_ok :: "string \<Rightarrow> int \<Rightarrow> int \<Rightarrow> jvalue" where
  "body_ok main_category cover dt =
     JObj [(''weather'', JArr [JObj [(''main'', JStr main_category),
                                     (''description'', JStr ''as reported'')]]),
           (''clouds'', JObj [(''all'', JNum cover)]),
           (''dt'', JNum dt)]"

definition body_error :: "string \<Rightarrow> string \<Rightarrow> jvalue" where
  "body_error cod message = JObj [(''cod'', JStr cod), (''message'', JStr message)]"

text \<open>
  The provider answers by city ID: 1, 6 and 7 succeed; 2 and 5 fail with the provider's
  JSON error body; 3 fails with a gateway's HTML page; 4 fails with a JSON body that
  carries a \<open>dt\<close> field; any other request does not get through.
\<close>

definition demo_get :: "nat \<Rightarrow> string \<Rightarrow> int \<Rightarrow> exn + response" where
  "demo_get n url city_id =
     (if city_id = 1 then
        Inr \<lparr>status_code = 200, resp_text = ''clear'', json = Some (body_ok ''Clear'' 5 1700000000)\<rparr>
      else if city_id = 6 then
        Inr \<lparr>status_code = 200, resp_text = ''rain'', json = Some (body_ok ''Rain'' 80 1700000100)\<rparr>
      else if city_id = 7 then
        Inr \<lparr>status_code = 200, resp_text = ''clear'', json = Some (body_ok ''Clear'' 0 1700000200)\<rparr>
      else if city_id = 2 then
        Inr \<lparr>status_code = 404, resp_text = ''city not found'',
             json = Some (body_error ''404'' ''city not found'')\<rparr>
      else if city_id = 5 then
        Inr \<lparr>status_code = 500, resp_text = ''internal error'',
             json = Some (body_error ''500'' ''internal error'')\<rparr>
      else if city_id = 3 then
        Inr \<lparr>status_code = 502, resp_text = ''<html>Bad Gateway</html>'', json = None\<rparr>
      else if city_id = 4 then
        Inr \<lparr>status_code = 404, resp_text = ''not found'',
             json = Some (JObj [(''cod'', JStr ''404''), (''dt'', JNum 7)])\<rparr>
      else Inl RequestException)"

definition demo_strftime :: "jvalue \<Rightarrow> exn + string" where
  "demo_strftime j = (case j of JNum n \<Rightarrow> Inr ''11/14/23 22:13'' | _ \<Rightarrow> Inl ValueError)"

definition demo_world :: world where
  "demo_world =
     \<lparr>sort_values = sort_key (\<lambda>p. - pop_max p),
      requests_get = demo_get,
      strftime_localtime = demo_strftime,
      render = (\<lambda>dataset ttl. None)\<rparr>"

definition demo_url :: string where
  "demo_url = api_path @ ''key''"

definition demo_places :: "place list" where
  "demo_places =
     [\<lparr>nameascii = ''Lyon'', iso_a2 = ''FR'', pop_max = 500000\<rparr>,
      \<lparr>nameascii = ''Paris'', iso_a2 = ''US'', pop_max = 25000\<rparr>,
      \<lparr>nameascii = ''Paris'', iso_a2 = ''FR'', pop_max = 2000000\<rparr>,
      \<lparr>nameascii = ''Rome'', iso_a2 = ''IT'', pop_max = 2800000\<rparr>]"

definition demo_catalog :: "cityid list" where
  "demo_catalog =
     [\<lparr>name = ''Paris'', country = ''US'', id_col = 2\<rparr>,
      \<lparr>name = ''Paris'', country = ''FR'', id_col = 1\<rparr>,
      \<lparr>name = ''Rome'', country = ''IT'', id_col = 6\<rparr>,
      \<lparr>name = ''Lyon'', country = ''FR'', id_col = 7\<rparr>]"

definition paris_fr :: joined where
  "paris_fr = \<lparr>left_row = \<lparr>nameascii = ''Paris'', iso_a2 = ''FR'', pop_max = 2000000\<rparr>,
               right_row = \<lparr>name = ''Paris'', country = ''FR'', id_col = 1\<rparr>\<rparr>"

definition paris_us :: joined where
  "paris_us = \<lparr>left_row = \<lparr>nameascii = ''Paris'', iso_a2 = ''US'', pop_max = 25000\<rparr>,
               right_row = \<lparr>name = ''Paris'', country = ''US'', id_col = 2\<rparr>\<rparr>"

definition oslo_places :: "place list" where
  "oslo_places = [\<lparr>nameascii = ''Oslo'', iso_a2 = ''NO'', pop_max = 1000000\<rparr>]"

definition oslo_catalog :: "cityid list" where
  "oslo_catalog = [\<lparr>name = ''Oslo'', country = ''NO'', id_col = 5\<rparr>]"

definition paris_fr_us :: joined where
  "paris_fr_us = \<lparr>left_row = \<lparr>nameascii = ''Paris'', iso_a2 = ''FR'', pop_max = 2000000\<rparr>,
                  right_row = \<lparr>name = ''Paris'', country = ''US'', id_col = 2\<rparr>\<rparr>"

text \<open>A catalog in which no entry agrees with a place on both name and country.\<close>

definition mismatch_catalog :: "cityid list" where
  "mismatch_catalog = [\<lparr>name = ''Paris'', country = ''DE'', id_col = 9\<rparr>]"

text \<open>The city IDs for which a request was issued, in order.\<close>

fun requested :: "event list \<Rightarrow> int list" where
  "requested [] = []"
| "requested (HttpGet c # es) = c # requested es"
| "requested (e # es) = requested es"

section \<open>The loop of get\_weather\<close>

lemma entry_of_desc_main: "entry_of r = Some (cv, d, m) \<Longrightarrow> d = m"
  by (auto simp: entry_of_def split: option.splits if_splits sum.splits)

lemma entry_of_failed: "entry_of r = Some e \<Longrightarrow> status_code r \<noteq> 200 \<Longrightarrow> e = (NaN, NaN, NaN)"
  by (auto simp: entry_of_def split: option.splits)

text \<open>A pass that ends without an exception: what it read and what it appended.\<close>

lemma loop_body_None:
  assumes "loop_body w u n c s = (s', None)"
  shows "\<exists>r j cv d m. requests_get w n u c = Inr r \<and> json r = Some j \<and>
           entry_of r = Some (cv, d, m) \<and>
           cloud_cov s' = cloud_cov s @ [cv] \<and> weath_desc s' = weath_desc s @ [d] \<and>
           weath_main s' = weath_main s @ [m] \<and> resp_j s' = Some j \<and>
           trace s' = trace s @ HttpGet c #
             (if status_code r = 200 then []
              else [PrintNotSuccessful c, PrintStatus (status_code r) (resp_text r)])"
  using assms
  by (auto simp: loop_body_def entry_of_def Let_def split: sum.splits option.splits if_splits)

lemma loop_body_json_None:
  "requests_get w n u c = Inr r \<Longrightarrow> json r = None \<Longrightarrow>
     loop_body w u n c s = (s\<lparr>trace := trace s @ [HttpGet c]\<rparr>, Some JSONDecodeError)"
  by (simp add: loop_body_def)

lemma loop_body_Some:
  assumes "fetch_entry w u n c = Some e"
  shows "\<exists>s'. loop_body w u n c s = (s', None)"
  using assms
  by (auto simp: fetch_entry_def entry_of_def loop_body_def Let_def
           split: sum.splits option.splits if_splits)

lemma loop_body_trace:
  assumes "loop_body w u n c s = (s', eo)"
  shows "\<exists>t'. trace s' = trace s @ t' \<and>
           (\<forall>e\<in>set t'. (\<forall>c'. e = HttpGet c' \<longrightarrow> c' = c) \<and> (\<forall>ttl rows. e \<noteq> Plot ttl rows))"
  using assms
  by (auto simp: loop_body_def Let_def split: sum.splits option.splits if_splits)

lemma loop_Cons_None:
  assumes "get_weather_loop w u n (c # rest) s = (s', None)"
  obtains s1 where "loop_body w u n c s = (s1, None)"
    and "get_weather_loop w u (Suc n) rest s1 = (s', None)"
  using assms by (auto split: prod.splits option.splits)

lemma loop_None:
  "get_weather_loop w u n ids s = (s', None) \<Longrightarrow>
     \<exists>es. length es = length ids \<and>
          cloud_cov s' = cloud_cov s @ map fst es \<and>
          weath_desc s' = weath_desc s @ map (\<lambda>e. fst (snd e)) es \<and>
          weath_main s' = weath_main s @ map (\<lambda>e. snd (snd e)) es \<and>
          (\<forall>i<length ids. fetch_entry w u (n + i) (ids ! i) = Some (es ! i))"
proof (induction ids arbitrary: n s)
  case Nil
  then show ?case by simp
next
  case (Cons c rest)
  from Cons.prems obtain s1 where b: "loop_body w u n c s = (s1, None)"
    and l: "get_weather_loop w u (Suc n) rest s1 = (s', None)"
    by (rule loop_Cons_None)
  from loop_body_None[OF b] obtain r cv d m where
    r: "requests_get w n u c = Inr r" "entry_of r = Some (cv, d, m)"
    and s1: "cloud_cov s1 = cloud_cov s @ [cv]" "weath_desc s1 = weath_desc s @ [d]"
      "weath_main s1 = weath_main s @ [m]"
    by blast
  from Cons.IH[OF l] obtain es where es: "length es = length rest"
    "cloud_cov s' = cloud_cov s1 @ map fst es"
    "weath_desc s' = weath_desc s1 @ map (\<lambda>e. fst (snd e)) es"
    "weath_main s' = weath_main s1 @ map (\<lambda>e. snd (snd e)) es"
    "\<forall>i<length rest. fetch_entry w u (Suc n + i) (rest ! i) = Some (es ! i)"
    by blast
  let ?es = "(cv, d, m) # es"
  have "fetch_entry w u (n + i) ((c # rest) ! i) = Some (?es ! i)" if "i < length (c # rest)" for i
  proof (cases i)
    case 0
    then show ?thesis using r by (simp add: fetch_entry_def)
  next
    case (Suc k)
    then show ?thesis using es(5) that by simp
  qed
  then show ?case using es(1-4) s1
    by (intro exI[of _ ?es]) simp
qed

text \<open>After the loop \<open>resp_j\<close> holds the body of the last response, whatever its status.\<close>

lemma loop_resp_j:
  "get_weather_loop w u n ids s = (s', None) \<Longrightarrow> ids \<noteq> [] \<Longrightarrow>
     \<exists>r j. requests_get w (n + length ids - 1) u (last ids) = Inr r \<and> json r = Some j \<and>
           resp_j s' = Some j"
proof (induction ids arbitrary: n s)
  case Nil
  then show ?case by simp
next
  case (Cons c rest)
  from Cons.prems(1) obtain s1 where b: "loop_body w u n c s = (s1, None)"
    and l: "get_weather_loop w u (Suc n) rest s1 = (s', None)"
    by (rule loop_Cons_None)
  show ?case
  proof (cases "rest = []")
    case True
    then show ?thesis using loop_body_None[OF b] l by auto
  next
    case False
    from Cons.IH[OF l False] show ?thesis using False by simp
  qed
qed

lemma loop_desc_main:
  "get_weather_loop w u n ids s = (s', None) \<Longrightarrow> weath_desc s = weath_main s \<Longrightarrow>
     weath_desc s' = weath_main s'"
proof (induction ids arbitrary: n s)
  case Nil
  then show ?case by simp
next
  case (Cons c rest)
  from Cons.prems(1) obtain s1 where b: "loop_body w u n c s = (s1, None)"
    and l: "get_weather_loop w u (Suc n) rest s1 = (s', None)"
    by (rule loop_Cons_None)
  from loop_body_None[OF b] obtain r cv d m where
    "entry_of r = Some (cv, d, m)" "weath_desc s1 = weath_desc s @ [d]"
    "weath_main s1 = weath_main s @ [m]"
    by blast
  then have "weath_desc s1 = weath_main s1"
    using Cons.prems(2) entry_of_desc_main by simp
  from Cons.IH[OF l this] show ?case .
qed

lemma loop_trace:
  "get_weather_loop w u n ids s = (s', eo) \<Longrightarrow>
     \<exists>t'. trace s' = trace s @ t' \<and>
       (\<forall>e\<in>set t'. (\<forall>c'. e = HttpGet c' \<longrightarrow> c' \<in> set ids) \<and> (\<forall>ttl rows. e \<noteq> Plot ttl rows))"
proof (induction ids arbitrary: n s)
  case Nil
  then show ?case by simp
next
  case (Cons c rest)
  obtain s1 e1 where b: "loop_body w u n c s = (s1, e1)"
    by (cases "loop_body w u n c s")
  from loop_body_trace[OF b] obtain t1 where t1: "trace s1 = trace s @ t1"
    "\<forall>e\<in>set t1. (\<forall>c'. e = HttpGet c' \<longrightarrow> c' = c) \<and> (\<forall>ttl rows. e \<noteq> Plot ttl rows)"
    by blast
  show ?case
  proof (cases e1)
    case (Some x)
    then have "s' = s1" using Cons.prems b by simp
    then show ?thesis using t1 by auto
  next
    case None
    then have "get_weather_loop w u (Suc n) rest s1 = (s', eo)" using Cons.prems b by simp
    from Cons.IH[OF this] obtain t2 where t2: "trace s' = trace s1 @ t2"
      "\<forall>e\<in>set t2. (\<forall>c'. e = HttpGet c' \<longrightarrow> c' \<in> set rest) \<and> (\<forall>ttl rows. e \<noteq> Plot ttl rows)"
      by blast
    have "trace s' = trace s @ (t1 @ t2)" using t1(1) t2(1) by simp
    moreover have "\<forall>e\<in>set (t1 @ t2). (\<forall>c'. e = HttpGet c' \<longrightarrow> c' \<in> set (c # rest)) \<and>
        (\<forall>ttl rows. e \<noteq> Plot ttl rows)"
      using t1(2) t2(2) by auto
    ultimately show ?thesis by blast
  qed
qed

text \<open>The loop over a list in two parts.\<close>

lemma loop_append:
  "get_weather_loop w u n (xs @ ys) s =
     (case get_weather_loop w u n xs s of
        (s', Some e) \<Rightarrow> (s', Some e)
      | (s', None) \<Rightarrow> get_weather_loop w u (n + length xs) ys s')"
  by (induction xs arbitrary: n s) (auto split: prod.splits option.splits)

lemma loop_all_Some:
  "\<forall>i<length ids. fetch_entry w u (n + i) (ids ! i) \<noteq> None \<Longrightarrow>
     \<exists>s'. get_weather_loop w u n ids s = (s', None)"
proof (induction ids arbitrary: n s)
  case Nil
  then show ?case by simp
next
  case (Cons c rest)
  from Cons.prems have "fetch_entry w u n c \<noteq> None" by fastforce
  then obtain s1 where b: "loop_body w u n c s = (s1, None)"
    using loop_body_Some by fastforce
  have "\<forall>i<length rest. fetch_entry w u (Suc n + i) (rest ! i) \<noteq> None"
    using Cons.prems by fastforce
  from Cons.IH[OF this] obtain s' where "get_weather_loop w u (Suc n) rest s1 = (s', None)"
    by blast
  then show ?case using b by simp
qed

lemma get_weather_Inr:
  assumes "get_weather w u ids = (t, Inr (cc, wd, wm, ts))"
  obtains s j where "get_weather_loop w u 0 ids init_state = (s, None)"
    "t = trace s" "cc = cloud_cov s" "wd = weath_desc s" "wm = weath_main s"
    "resp_j s = Some j" "getitem_str j ''dt'' = Inr ts"
  using assms
  by (auto simp: get_weather_def split: prod.splits option.splits sum.splits)

lemma get_weather_trace:
  assumes "get_weather w u ids = (t, res)"
  shows "\<forall>e\<in>set t. (\<forall>c'. e = HttpGet c' \<longrightarrow> c' \<in> set ids) \<and> (\<forall>ttl rows. e \<noteq> Plot ttl rows)"
proof -
  obtain s eo where l: "get_weather_loop w u 0 ids init_state = (s, eo)"
    by (cases "get_weather_loop w u 0 ids init_state")
  have "t = trace s"
    using assms l by (auto simp: get_weather_def split: option.splits sum.splits)
  moreover have "trace init_state = []" by (simp add: init_state_def)
  ultimately show ?thesis using loop_trace[OF l] by auto
qed

lemma get_weather_lengths:
  assumes "get_weather w u ids = (t, Inr (cc, wd, wm, ts))"
  shows "length cc = length ids \<and> length wd = length ids \<and> length wm = length ids \<and>
         (\<forall>i<length ids. fetch_entry w u i (ids ! i) = Some (cc ! i, wd ! i, wm ! i))"
proof -
  from assms obtain s where l: "get_weather_loop w u 0 ids init_state = (s, None)"
    and eq: "cc = cloud_cov s" "wd = weath_desc s" "wm = weath_main s"
    by (rule get_weather_Inr)
  from loop_None[OF l] obtain es where es: "length es = length ids"
    "cc = map fst es" "wd = map (\<lambda>e. fst (snd e)) es" "wm = map (\<lambda>e. snd (snd e)) es"
    "\<forall>i<length ids. fetch_entry w u i (ids ! i) = Some (es ! i)"
    unfolding eq by (auto simp: init_state_def)
  show ?thesis using es by simp
qed

lemma requested_append: "requested (xs @ ys) = requested xs @ requested ys"
  by (induction xs rule: requested.induct) auto

lemma loop_requested:
  "get_weather_loop w u n ids s = (s', None) \<Longrightarrow>
     requested (trace s') = requested (trace s) @ ids"
proof (induction ids arbitrary: n s)
  case Nil
  then show ?case by simp
next
  case (Cons c rest)
  from Cons.prems obtain s1 where b: "loop_body w u n c s = (s1, None)"
    and l: "get_weather_loop w u (Suc n) rest s1 = (s', None)"
    by (rule loop_Cons_None)
  from loop_body_None[OF b] have "requested (trace s1) = requested (trace s) @ [c]"
    by (auto simp: requested_append)
  then show ?case using Cons.IH[OF l] by simp
qed

lemma loop_prints:
  "get_weather_loop w u n ids s = (s', None) \<Longrightarrow> i < length ids \<Longrightarrow>
     requests_get w (n + i) u (ids ! i) = Inr r \<Longrightarrow> status_code r \<noteq> 200 \<Longrightarrow>
     PrintNotSuccessful (ids ! i) \<in> set (trace s') \<and>
     PrintStatus (status_code r) (resp_text r) \<in> set (trace s')"
proof (induction ids arbitrary: n s i)
  case Nil
  then show ?case by simp
next
  case (Cons c rest)
  from Cons.prems(1) obtain s1 where b: "loop_body w u n c s = (s1, None)"
    and l: "get_weather_loop w u (Suc n) rest s1 = (s', None)"
    by (rule loop_Cons_None)
  from loop_trace[OF l] obtain t' where t': "trace s' = trace s1 @ t'" by blast
  show ?case
  proof (cases i)
    case 0
    with Cons.prems(3,4) loop_body_None[OF b]
    have "PrintNotSuccessful c \<in> set (trace s1) \<and>
          PrintStatus (status_code r) (resp_text r) \<in> set (trace s1)"
      by auto
    then show ?thesis using t' 0 by simp
  next
    case (Suc k)
    then have "k < length rest" "requests_get w (Suc n + k) u (rest ! k) = Inr r"
      using Cons.prems(2,3) by simp_all
    from Cons.IH[OF l this Cons.prems(4)] show ?thesis using Suc by simp
  qed
qed

text \<open>
  What the code does for a failed request when the whole call returns: the three entries at
  its position are the absent marker, both diagnostics were printed, and each ID was
  requested once, in order.
\<close>

lemma failed_request_recorded:
  assumes "get_weather w API_URL id_list = (t, Inr (cc, wd, wm, ts))"
    and "i < length id_list"
    and "requests_get w i API_URL (id_list ! i) = Inr r"
    and "status_code r \<noteq> 200"
  shows "cc ! i = NaN \<and> wd ! i = NaN \<and> wm ! i = NaN \<and>
         PrintNotSuccessful (id_list ! i) \<in> set t \<and>
         PrintStatus (status_code r) (resp_text r) \<in> set t \<and>
         requested t = id_list"
proof -
  from assms(1) obtain s where l: "get_weather_loop w API_URL 0 id_list init_state = (s, None)"
    and t: "t = trace s"
    by (rule get_weather_Inr)
  from get_weather_lengths[OF assms(1)] assms(2)
  have "fetch_entry w API_URL i (id_list ! i) = Some (cc ! i, wd ! i, wm ! i)" by blast
  then have "entry_of r = Some (cc ! i, wd ! i, wm ! i)"
    using assms(3) by (simp add: fetch_entry_def)
  from entry_of_failed[OF this assms(4)] have cells: "cc ! i = NaN \<and> wd ! i = NaN \<and> wm ! i = NaN"
    by simp
  have "requests_get w (0 + i) API_URL (id_list ! i) = Inr r" using assms(3) by simp
  from loop_prints[OF l assms(2) this assms(4)] have prints:
    "PrintNotSuccessful (id_list ! i) \<in> set t \<and> PrintStatus (status_code r) (resp_text r) \<in> set t"
    by (simp add: t)
  have "requested t = id_list" using loop_requested[OF l] by (simp add: t init_state_def)
  with cells prints show ?thesis by blast
qed

section \<open>The table operations of select\_cities\<close>

lemma set_merge_rows:
  "set (merge left right) =
     {\<lparr>left_row = l, right_row = r\<rparr> | l r. l \<in> set left \<and> r \<in> set right \<and> nameascii l = name r}"
  by (auto simp: merge_def)

lemma merge_Cons:
  "merge (l # left) right =
     map (\<lambda>r. \<lparr>left_row = l, right_row = r\<rparr>) (filter (\<lambda>r. nameascii l = name r) right) @
     merge left right"
  by (simp add: merge_def)

lemma merge_sorted:
  "sorted_wrt (\<lambda>a b. pop_max b \<le> pop_max a) left \<Longrightarrow>
     sorted_wrt (\<lambda>x y. pop_max (left_row y) \<le> pop_max (left_row x)) (merge left right)"
proof (induction left)
  case Nil
  then show ?case by (simp add: merge_def)
next
  case (Cons l left)
  have "sorted_wrt (\<lambda>x y. pop_max (left_row y) \<le> pop_max (left_row x))
          (map (\<lambda>r. \<lparr>left_row = l, right_row = r\<rparr>) (filter (\<lambda>r. nameascii l = name r) right))"
    by (simp add: sorted_wrt_map sorted_wrt_iff_nth_less)
  moreover have "sorted_wrt (\<lambda>x y. pop_max (left_row y) \<le> pop_max (left_row x)) (merge left right)"
    using Cons by simp
  moreover have "\<forall>y\<in>set (merge left right). pop_max (left_row y) \<le> pop_max l"
    using Cons.prems by (auto simp: set_merge_rows)
  ultimately show ?case
    by (auto simp: merge_Cons sorted_wrt_append)
qed

lemma drop_duplicates_filter:
  "filter (\<lambda>y. nameascii (left_row y) = n) (drop_duplicates seen xs) =
     (if n \<in> set seen then [] else take 1 (filter (\<lambda>y. nameascii (left_row y) = n) xs))"
proof (induction xs arbitrary: seen)
  case Nil
  then show ?case by simp
next
  case (Cons x xs)
  show ?case
  proof (cases "nameascii (left_row x) \<in> set seen")
    case True
    then show ?thesis using Cons.IH[of seen] by auto
  next
    case False
    then show ?thesis using Cons.IH[of "nameascii (left_row x) # seen"] by auto
  qed
qed

lemma set_drop_duplicates: "set (drop_duplicates seen xs) \<subseteq> set xs"
  by (induction xs arbitrary: seen) auto

lemma sorted_first_max:
  assumes "sorted_wrt (\<lambda>x y. pop_max (left_row y) \<le> pop_max (left_row x)) xs"
    and "take 1 (filter (\<lambda>y. nameascii (left_row y) = n) xs) = [r]"
    and "c \<in> set xs" "nameascii (left_row c) = n"
  shows "pop_max (left_row c) \<le> pop_max (left_row r)"
proof -
  let ?f = "filter (\<lambda>y. nameascii (left_row y) = n) xs"
  have s: "sorted_wrt (\<lambda>x y. pop_max (left_row y) \<le> pop_max (left_row x)) ?f"
    using assms(1) by (rule sorted_wrt_filter)
  from assms(2) obtain fs where f: "?f = r # fs" by (cases ?f) auto
  have "c \<in> set ?f" using assms(3,4) by simp
  then show ?thesis using s unfolding f by auto
qed

lemma full_dataset_sorted:
  assumes "sort_values_ok w cities_data"
  shows "sorted_wrt (\<lambda>x y. pop_max (left_row y) \<le> pop_max (left_row x))
           (full_dataset w cities_data cities_id)"
  using assms
  by (simp add: sort_values_ok_def full_dataset_def fulldataset_def merge_sorted sorted_wrt_filter)

lemma set_slice_to: "set (slice_to k xs) \<subseteq> set xs"
  by (auto simp: slice_to_def dest: in_set_takeD)

lemma length_slice_to: "0 \<le> k \<Longrightarrow> length (slice_to k xs) \<le> nat k"
  by (simp add: slice_to_def)

lemma set_sel_dataset:
  "x \<in> set (sel_dataset w k cities_data cities_id) \<Longrightarrow>
     x \<in> set (fulldataset w cities_data cities_id) \<and> codes_match x"
proof -
  assume "x \<in> set (sel_dataset w k cities_data cities_id)"
  then have "x \<in> set (clear_dataset w cities_data cities_id)"
    using set_slice_to unfolding sel_dataset_def by fastforce
  then have "x \<in> set (full_dataset w cities_data cities_id)"
    using set_drop_duplicates unfolding clear_dataset_def by fastforce
  then show ?thesis by (simp add: full_dataset_def codes_match_def)
qed

lemma add_columns_Inr:
  assumes "add_columns rows wm wd cc = Inr out"
  shows "length out = length rows \<and>
         (\<forall>x\<in>set out. \<exists>y\<in>set rows. left_row x = left_row y \<and> right_row x = right_row y)"
proof -
  from assms have out: "out = map (\<lambda>(x, m, d, c).
                  \<lparr>left_row = left_row x, right_row = right_row x,
                   weather = m, weather_description = d, clouds = c\<rparr>)
                (zip rows (zip wm (zip wd cc)))"
    and len: "length wm = length rows" "length wd = length rows" "length cc = length rows"
    by (auto simp: add_columns_def split: if_splits)
  have "length out = length rows" using len by (simp add: out)
  moreover have "\<exists>y\<in>set rows. left_row x = left_row y \<and> right_row x = right_row y"
    if "x \<in> set out" for x
    using that unfolding out by (auto dest: set_zip_leftD)
  ultimately show ?thesis by blast
qed

lemma fillna_rows:
  "length (fillna rows) = length rows \<and>
   (\<forall>x\<in>set (fillna rows). \<exists>y\<in>set rows. left_row x = left_row y \<and> right_row x = right_row y)"
  by (auto simp: fillna_def)

text \<open>
  What a run of the pipeline that reaches the end has done.
\<close>

lemma final_dataset_Inr:
  assumes "final_dataset w selection appid cities_data cities_id = (t, Inr final)"
  obtains t1 cc wd wm ts timestr rows where
    "get_weather w (api_path @ appid)
       (map (\<lambda>x. id_col (right_row x)) (sel_dataset w selection cities_data cities_id)) =
       (t1, Inr (cc, wd, wm, ts))"
    "strftime_localtime w ts = Inr timestr"
    "add_columns (sel_dataset w selection cities_data cities_id) wm wd cc = Inr rows"
    "final = filter (\<lambda>x. weather x = Val (JStr ''Clear'')) (fillna rows)"
    "t = t1 @ [Plot (TitleClouds selection) (fillna rows), Plot (TitleClear timestr) final]"
  using assms
  by (auto simp: final_dataset_def plot_on_map_def Let_def
           split: prod.splits sum.splits option.splits)

lemma final_dataset_shape:
  assumes "final_dataset w selection appid cities_data cities_id = (t, res)"
  shows "\<exists>t1 r1 t2.
           get_weather w (api_path @ appid)
             (map (\<lambda>x. id_col (right_row x)) (sel_dataset w selection cities_data cities_id)) =
             (t1, r1) \<and>
           t = t1 @ t2 \<and>
           (\<forall>e\<in>set t2. \<exists>ttl out wm wd cc rows.
              e = Plot ttl out \<and>
              add_columns (sel_dataset w selection cities_data cities_id) wm wd cc = Inr rows \<and>
              set out \<subseteq> set (fillna rows))"
  using assms
  by (auto simp: final_dataset_def plot_on_map_def Let_def
           split: prod.splits sum.splits option.splits) blast+

lemma final_dataset_trace:
  assumes "final_dataset w selection appid cities_data cities_id = (t, res)"
    and "e \<in> set t"
  shows "(\<forall>c. e = HttpGet c \<longrightarrow>
            (\<exists>y\<in>set (sel_dataset w selection cities_data cities_id). id_col (right_row y) = c)) \<and>
         (\<forall>ttl out. e = Plot ttl out \<longrightarrow>
            (\<forall>x\<in>set out. \<exists>y\<in>set (sel_dataset w selection cities_data cities_id).
               left_row x = left_row y \<and> right_row x = right_row y))"
proof -
  let ?sel = "sel_dataset w selection cities_data cities_id"
  from final_dataset_shape[OF assms(1)] obtain t1 r1 t2 where
    g: "get_weather w (api_path @ appid) (map (\<lambda>x. id_col (right_row x)) ?sel) = (t1, r1)"
    and t: "t = t1 @ t2"
    and t2: "\<forall>e\<in>set t2. \<exists>ttl out wm wd cc rows. e = Plot ttl out \<and>
              add_columns ?sel wm wd cc = Inr rows \<and> set out \<subseteq> set (fillna rows)"
    by blast
  from assms(2) t consider "e \<in> set t1" | "e \<in> set t2" by auto
  then show ?thesis
  proof cases
    case 1
    with get_weather_trace[OF g] show ?thesis by fastforce
  next
    case 2
    with t2 obtain ttl out wm wd cc rows where e: "e = Plot ttl out"
      and a: "add_columns ?sel wm wd cc = Inr rows" and sub: "set out \<subseteq> set (fillna rows)"
      by blast
    have "\<exists>y\<in>set ?sel. left_row x = left_row y \<and> right_row x = right_row y" if "x \<in> set out" for x
    proof -
      from that sub have "x \<in> set (fillna rows)" by blast
      then obtain z where "z \<in> set rows" "left_row x = left_row z" "right_row x = right_row z"
        using fillna_rows by blast
      moreover from this(1) obtain y where "y \<in> set ?sel" "left_row z = left_row y"
        "right_row z = right_row y"
        using add_columns_Inr[OF a] by blast
      ultimately show ?thesis by auto
    qed
    then show ?thesis using e by auto
  qed
qed

section \<open>Evaluation on the concrete provider\<close>

lemmas demo_defs = demo_world_def demo_get_def demo_url_def demo_strftime_def body_ok_def
  body_error_def demo_places_def demo_catalog_def oslo_places_def oslo_catalog_def
  paris_fr_def paris_us_def paris_fr_us_def mismatch_catalog_def api_path_def

lemmas get_weather_defs = get_weather_def loop_body_def init_state_def weather_0_main_def
  clouds_all_def

lemmas select_cities_defs = select_cities_def final_dataset_def sel_dataset_def clear_dataset_def
  full_dataset_def fulldataset_def merge_def slice_to_def add_columns_def fillna_def
  plot_on_map_def project_def Let_def

lemma demo_full_dataset:
  "full_dataset demo_world demo_places demo_catalog =
     [\<lparr>left_row = \<lparr>nameascii = ''Rome'', iso_a2 = ''IT'', pop_max = 2800000\<rparr>,
       right_row = \<lparr>name = ''Rome'', country = ''IT'', id_col = 6\<rparr>\<rparr>,
      paris_fr,
      \<lparr>left_row = \<lparr>nameascii = ''Lyon'', iso_a2 = ''FR'', pop_max = 500000\<rparr>,
       right_row = \<lparr>name = ''Lyon'', country = ''FR'', id_col = 7\<rparr>\<rparr>,
      paris_us]"
  by (simp add: select_cities_defs demo_defs)

lemma demo_clear_dataset:
  "clear_dataset demo_world demo_places demo_catalog =
     [\<lparr>left_row = \<lparr>nameascii = ''Rome'', iso_a2 = ''IT'', pop_max = 2800000\<rparr>,
       right_row = \<lparr>name = ''Rome'', country = ''IT'', id_col = 6\<rparr>\<rparr>,
      paris_fr,
      \<lparr>left_row = \<lparr>nameascii = ''Lyon'', iso_a2 = ''FR'', pop_max = 500000\<rparr>,
       right_row = \<lparr>name = ''Lyon'', country = ''FR'', id_col = 7\<rparr>\<rparr>]"
  by (simp add: select_cities_defs demo_defs)

lemma demo_sort_values_ok: "sort_values_ok demo_world demo_places"
  by (simp add: sort_values_ok_def demo_defs)

section \<open>Properties of get\_weather\<close>

text \<open>
  C2. For a non-empty ID list for which \<^verbatim>\<open>get_weather\<close> returns, each of the three
  output lists has the length of the ID list, and the entries at position \<open>i\<close> are the ones
  that the response to the \<open>i\<close>-th request, made for the \<open>i\<close>-th ID, contributes.
\<close>

theorem get_weather_aligned:
  assumes "id_list \<noteq> []"
    and "get_weather w API_URL id_list = (t, Inr (cc, wd, wm, ts))"
  shows "length cc = length id_list \<and> length wd = length id_list \<and> length wm = length id_list \<and>
         (\<forall>i<length id_list.
            fetch_entry w API_URL i (id_list ! i) = Some (cc ! i, wd ! i, wm ! i))"
  using assms(2) by (rule get_weather_lengths)

theorem get_weather_aligned_witness:
  "[2, 1] \<noteq> ([] :: int list) \<and>
   get_weather demo_world demo_url [2, 1] =
     ([HttpGet 2, PrintNotSuccessful 2, PrintStatus 404 ''city not found'', HttpGet 1],
      Inr ([NaN, Val (JNum 5)], [NaN, Val (JStr ''Clear'')], [NaN, Val (JStr ''Clear'')],
           JNum 1700000000)) \<and>
   length [NaN, Val (JNum 5)] = length [2, 1 :: int] \<and>
   length [NaN, Val (JStr ''Clear'')] = length [2, 1 :: int] \<and>
   fetch_entry demo_world demo_url 0 2 = Some (NaN, NaN, NaN) \<and>
   fetch_entry demo_world demo_url 1 1 =
     Some (Val (JNum 5), Val (JStr ''Clear''), Val (JStr ''Clear''))"
proof -
  have h1: "[2, 1] \<noteq> ([] :: int list)" by simp
  have h2: "get_weather demo_world demo_url [2, 1] =
     ([HttpGet 2, PrintNotSuccessful 2, PrintStatus 404 ''city not found'', HttpGet 1],
      Inr ([NaN, Val (JNum 5)], [NaN, Val (JStr ''Clear'')], [NaN, Val (JStr ''Clear'')],
           JNum 1700000000))"
    by (simp add: get_weather_defs demo_defs)
  note c = get_weather_aligned[OF h1 h2]
  from c have e: "\<forall>i<length [2, 1 :: int].
      fetch_entry demo_world demo_url i ([2, 1] ! i) =
        Some ([NaN, Val (JNum 5)] ! i, [NaN, Val (JStr ''Clear'')] ! i,
              [NaN, Val (JStr ''Clear'')] ! i)"
    by blast
  have e0: "fetch_entry demo_world demo_url 0 2 = Some (NaN, NaN, NaN)"
    using e[rule_format, of 0] by simp
  have e1: "fetch_entry demo_world demo_url 1 1 =
      Some (Val (JNum 5), Val (JStr ''Clear''), Val (JStr ''Clear''))"
    using e[rule_format, of 1] by simp
  from c e0 e1 show ?thesis using h1 h2 by blast
qed

text \<open>
  C3, at a failing input. The response to ID 3 has status 502 and a body that is not JSON.
  \<^verbatim>\<open>response.json()\<close> is called before the status is looked at, so the call ends with the
  parse error: no diagnostic is printed, no marker is appended, and ID 1 is never requested.
\<close>

theorem non_json_failure_aborts_batch:
  "requests_get demo_world 0 demo_url 3 =
     Inr \<lparr>status_code = 502, resp_text = ''<html>Bad Gateway</html>'', json = None\<rparr> \<and>
   get_weather demo_world demo_url [3, 1] = ([HttpGet 3], Inl JSONDecodeError)"
  by (simp add: get_weather_defs demo_defs)

text \<open>
  C4, as first stated, fails. ID 1 succeeds with \<open>dt = 1700000000\<close> and the last request
  fails with status 404. With the provider's error body, which has no \<open>dt\<close>, the call
  raises \<^verbatim>\<open>KeyError\<close>; with an error body that carries \<open>dt = 7\<close> the call returns 7.
  In neither case is the timestamp that of the earlier successful response.
\<close>

theorem timestamp_not_previous_success:
  "requests_get demo_world 0 demo_url 1 =
     Inr \<lparr>status_code = 200, resp_text = ''clear'', json = Some (body_ok ''Clear'' 5 1700000000)\<rparr> \<and>
   getitem_str (body_ok ''Clear'' 5 1700000000) ''dt'' = Inr (JNum 1700000000) \<and>
   requests_get demo_world 1 demo_url 2 =
     Inr \<lparr>status_code = 404, resp_text = ''city not found'',
          json = Some (body_error ''404'' ''city not found'')\<rparr> \<and>
   get_weather demo_world demo_url [1, 2] =
     ([HttpGet 1, HttpGet 2, PrintNotSuccessful 2, PrintStatus 404 ''city not found''],
      Inl (KeyError (StrKey ''dt''))) \<and>
   requests_get demo_world 1 demo_url 4 =
     Inr \<lparr>status_code = 404, resp_text = ''not found'',
          json = Some (JObj [(''cod'', JStr ''404''), (''dt'', JNum 7)])\<rparr> \<and>
   get_weather demo_world demo_url [1, 4] =
     ([HttpGet 1, HttpGet 4, PrintNotSuccessful 4, PrintStatus 404 ''not found''],
      Inr ([Val (JNum 5), NaN], [Val (JStr ''Clear''), NaN], [Val (JStr ''Clear''), NaN], JNum 7))"
  by (simp add: get_weather_defs demo_defs)

text \<open>
  C4, amended. Whenever \<^verbatim>\<open>get_weather\<close> returns, the ID list is not empty and the
  timestamp is the \<open>dt\<close> field of the body of the last response, whatever the status of
  that response.
\<close>

theorem timestamp_is_last_body_dt:
  assumes "get_weather w API_URL id_list = (t, Inr (cc, wd, wm, ts))"
  shows "id_list \<noteq> [] \<and>
         (\<exists>r j. requests_get w (length id_list - 1) API_URL (last id_list) = Inr r \<and>
                json r = Some j \<and> getitem_str j ''dt'' = Inr ts)"
proof -
  from assms obtain s j where l: "get_weather_loop w API_URL 0 id_list init_state = (s, None)"
    and j: "resp_j s = Some j" "getitem_str j ''dt'' = Inr ts"
    by (rule get_weather_Inr)
  have ne: "id_list \<noteq> []"
  proof
    assume "id_list = []"
    then have "resp_j s = None" using l by (auto simp: init_state_def)
    then show False using j by simp
  qed
  from loop_resp_j[OF l ne] obtain r j' where
    "requests_get w (length id_list - 1) API_URL (last id_list) = Inr r" "json r = Some j'"
    "resp_j s = Some j'"
    by auto
  then show ?thesis using ne j by auto
qed

theorem timestamp_is_last_body_dt_witness:
  "get_weather demo_world demo_url [6, 4] =
     ([HttpGet 6, HttpGet 4, PrintNotSuccessful 4, PrintStatus 404 ''not found''],
      Inr ([Val (JNum 80), NaN], [Val (JStr ''Rain''), NaN], [Val (JStr ''Rain''), NaN], JNum 7)) \<and>
   [6, 4] \<noteq> ([] :: int list) \<and>
   (\<exists>r j. requests_get demo_world (length [6, 4 :: int] - 1) demo_url (last [6, 4]) = Inr r \<and>
          json r = Some j \<and> getitem_str j ''dt'' = Inr (JNum 7))"
proof -
  have h: "get_weather demo_world demo_url [6, 4] =
     ([HttpGet 6, HttpGet 4, PrintNotSuccessful 4, PrintStatus 404 ''not found''],
      Inr ([Val (JNum 80), NaN], [Val (JStr ''Rain''), NaN], [Val (JStr ''Rain''), NaN], JNum 7))"
    by (simp add: get_weather_defs demo_defs)
  from timestamp_is_last_body_dt[OF h] show ?thesis using h by blast
qed

text \<open>
  C8. In every result of \<^verbatim>\<open>get_weather\<close> the list of descriptions equals the list of
  main categories.
\<close>

theorem description_equals_main:
  assumes "get_weather w API_URL id_list = (t, Inr (cc, wd, wm, ts))"
  shows "wd = wm"
proof -
  from assms obtain s where l: "get_weather_loop w API_URL 0 id_list init_state = (s, None)"
    and eq: "wd = weath_desc s" "wm = weath_main s"
    by (rule get_weather_Inr)
  have "weath_desc init_state = weath_main init_state" by (simp add: init_state_def)
  from loop_desc_main[OF l this] show ?thesis using eq by simp
qed

theorem description_equals_main_witness:
  "get_weather demo_world demo_url [6, 2, 7] =
     ([HttpGet 6, HttpGet 2, PrintNotSuccessful 2, PrintStatus 404 ''city not found'', HttpGet 7],
      Inr ([Val (JNum 80), NaN, Val (JNum 0)],
           [Val (JStr ''Rain''), NaN, Val (JStr ''Clear'')],
           [Val (JStr ''Rain''), NaN, Val (JStr ''Clear'')],
           JNum 1700000200)) \<and>
   [Val (JStr ''Rain''), NaN, Val (JStr ''Clear'')] = [Val (JStr ''Rain''), NaN, Val (JStr ''Clear'')]"
proof -
  have h: "get_weather demo_world demo_url [6, 2, 7] =
     ([HttpGet 6, HttpGet 2, PrintNotSuccessful 2, PrintStatus 404 ''city not found'', HttpGet 7],
      Inr ([Val (JNum 80), NaN, Val (JNum 0)],
           [Val (JStr ''Rain''), NaN, Val (JStr ''Clear'')],
           [Val (JStr ''Rain''), NaN, Val (JStr ''Clear'')],
           JNum 1700000200))"
    by (simp add: get_weather_defs demo_defs)
  from description_equals_main[OF h] show ?thesis using h by blast
qed

text \<open>
  C10. The body is parsed before the status code is read: when the response at some
  position has a body that is not JSON, whatever its status code, \<^verbatim>\<open>get_weather\<close> ends
  with an exception; when every earlier position is handled without one, the exception is
  the parse error and the last effect is the request for that ID, with no diagnostic and no
  marker for it.
\<close>

theorem json_parsed_before_status_check:
  assumes "i < length id_list"
    and "requests_get w i API_URL (id_list ! i) = Inr r"
    and "json r = None"
  shows "(\<exists>e. snd (get_weather w API_URL id_list) = Inl e) \<and>
         ((\<forall>k<i. fetch_entry w API_URL k (id_list ! k) \<noteq> None) \<longrightarrow>
            snd (get_weather w API_URL id_list) = Inl JSONDecodeError \<and>
            last (fst (get_weather w API_URL id_list)) = HttpGet (id_list ! i))"
proof -
  have none: "fetch_entry w API_URL i (id_list ! i) = None"
    using assms(2,3) by (simp add: fetch_entry_def entry_of_def)
  obtain s eo where l: "get_weather_loop w API_URL 0 id_list init_state = (s, eo)"
    by (cases "get_weather_loop w API_URL 0 id_list init_state")
  have "eo \<noteq> None"
  proof
    assume "eo = None"
    with l loop_None[of w API_URL 0 id_list init_state s] assms(1) none show False by auto
  qed
  then have first: "\<exists>e. snd (get_weather w API_URL id_list) = Inl e"
    using l by (auto simp: get_weather_def)
  have second: "snd (get_weather w API_URL id_list) = Inl JSONDecodeError \<and>
      last (fst (get_weather w API_URL id_list)) = HttpGet (id_list ! i)"
    if ok: "\<forall>k<i. fetch_entry w API_URL k (id_list ! k) \<noteq> None"
  proof -
    have split: "id_list = take i id_list @ (id_list ! i) # drop (Suc i) id_list"
      using assms(1) by (simp add: id_take_nth_drop)
    have "\<forall>k<length (take i id_list). fetch_entry w API_URL (0 + k) (take i id_list ! k) \<noteq> None"
      using ok by simp
    from loop_all_Some[OF this] obtain s1 where
      p: "get_weather_loop w API_URL 0 (take i id_list) init_state = (s1, None)"
      by blast
    have len: "length (take i id_list) = i" using assms(1) by simp
    have "get_weather_loop w API_URL 0 id_list init_state =
            get_weather_loop w API_URL i ((id_list ! i) # drop (Suc i) id_list) s1"
      using loop_append[of w API_URL 0 "take i id_list" "(id_list ! i) # drop (Suc i) id_list" init_state]
        p len split by simp
    also have "\<dots> = (s1\<lparr>trace := trace s1 @ [HttpGet (id_list ! i)]\<rparr>, Some JSONDecodeError)"
      using loop_body_json_None[OF assms(2,3)] by simp
    finally show ?thesis by (simp add: get_weather_def)
  qed
  from first second show ?thesis by blast
qed

theorem json_parsed_before_status_check_witness:
  "(1::nat) < length [1, 3 :: int] \<and>
   requests_get demo_world 1 demo_url ([1, 3] ! 1) =
     Inr \<lparr>status_code = 502, resp_text = ''<html>Bad Gateway</html>'', json = None\<rparr> \<and>
   json \<lparr>status_code = 502, resp_text = ''<html>Bad Gateway</html>'', json = None\<rparr> = None \<and>
   fetch_entry demo_world demo_url 0 ([1, 3] ! 0) \<noteq> None \<and>
   (\<exists>e. snd (get_weather demo_world demo_url [1, 3]) = Inl e) \<and>
   snd (get_weather demo_world demo_url [1, 3]) = Inl JSONDecodeError \<and>
   last (fst (get_weather demo_world demo_url [1, 3])) = HttpGet ([1, 3] ! 1)"
proof -
  have h1: "(1::nat) < length [1, 3 :: int]" by simp
  have h2: "requests_get demo_world 1 demo_url ([1, 3] ! 1) =
     Inr \<lparr>status_code = 502, resp_text = ''<html>Bad Gateway</html>'', json = None\<rparr>"
    by (simp add: demo_defs)
  have h3: "json \<lparr>status_code = 502, resp_text = ''<html>Bad Gateway</html>'', json = None\<rparr> = None"
    by simp
  have h0: "fetch_entry demo_world demo_url 0 ([1, 3] ! 0) \<noteq> None"
    by (simp add: fetch_entry_def entry_of_def weather_0_main_def clouds_all_def demo_defs)
  then have h4: "\<forall>k<1. fetch_entry demo_world demo_url k ([1, 3] ! k) \<noteq> None"
    by simp
  from json_parsed_before_status_check[OF h1 h2 h3] show ?thesis using h0 h1 h2 h3 h4 by blast
qed

section \<open>Properties of select\_cities\<close>

text \<open>
  C1. For a selection count \<open>N \<ge> 0\<close> and any two tables, a table returned by
  \<^verbatim>\<open>select_cities\<close> has at most \<open>N\<close> rows, and it is the projection to name and cloud
  cover of the rows of \<open>final_dataset\<close>, each of which has the weather main category
  \<open>''Clear''\<close>. (A negative count would slice from the end of the table.)
\<close>

theorem select_cities_clear_rows:
  assumes "0 \<le> selection"
    and "snd (select_cities w selection appid cities_data cities_id) = Inr tbl"
  shows "length tbl \<le> nat selection \<and>
         (\<exists>final. snd (final_dataset w selection appid cities_data cities_id) = Inr final \<and>
            tbl = map (\<lambda>x. (nameascii (left_row x), clouds x)) final \<and>
            (\<forall>x\<in>set final. weather x = Val (JStr ''Clear'')))"
proof -
  obtain t res where f: "final_dataset w selection appid cities_data cities_id = (t, res)"
    by (cases "final_dataset w selection appid cities_data cities_id")
  from assms(2) f obtain final where res: "res = Inr final" and tbl: "tbl = map project final"
    by (auto simp: select_cities_def split: sum.splits)
  from f[unfolded res] obtain wm wd cc rows where
    a: "add_columns (sel_dataset w selection cities_data cities_id) wm wd cc = Inr rows"
    and fin: "final = filter (\<lambda>x. weather x = Val (JStr ''Clear'')) (fillna rows)"
    by (rule final_dataset_Inr)
  have "length final \<le> length (fillna rows)" unfolding fin by (rule length_filter_le)
  also have "\<dots> = length (sel_dataset w selection cities_data cities_id)"
    using fillna_rows add_columns_Inr[OF a] by simp
  also have "\<dots> \<le> nat selection"
    unfolding sel_dataset_def using assms(1) by (rule length_slice_to)
  finally have "length tbl \<le> nat selection" by (simp add: tbl)
  moreover have "tbl = map (\<lambda>x. (nameascii (left_row x), clouds x)) final"
    by (simp add: tbl project_def)
  moreover have "\<forall>x\<in>set final. weather x = Val (JStr ''Clear'')" by (simp add: fin)
  ultimately show ?thesis using f res by auto
qed

theorem select_cities_clear_rows_witness:
  "(0::int) \<le> 2 \<and>
   snd (select_cities demo_world 2 ''key'' demo_places demo_catalog) =
     Inr [(''Paris'', Val (JNum 5))] \<and>
   length [(''Paris'', Val (JNum 5))] \<le> nat 2 \<and>
   (\<exists>final. snd (final_dataset demo_world 2 ''key'' demo_places demo_catalog) = Inr final \<and>
      [(''Paris'', Val (JNum 5))] = map (\<lambda>x. (nameascii (left_row x), clouds x)) final \<and>
      (\<forall>x\<in>set final. weather x = Val (JStr ''Clear'')))"
proof -
  have h1: "(0::int) \<le> 2" by simp
  have h2: "snd (select_cities demo_world 2 ''key'' demo_places demo_catalog) =
     Inr [(''Paris'', Val (JNum 5))]"
    by (simp add: select_cities_defs get_weather_defs demo_defs)
  from select_cities_clear_rows[OF h1 h2] show ?thesis using h1 h2 by blast
qed

text \<open>
  C5. Let two rows with the same name and different populations both pass the join and the
  country-code filter. Then the row of the smaller population is not in the deduplicated
  table, which holds exactly one row of that name: a row that passed the filter and whose
  population is the largest among the rows of that name. When the two places are the only
  ones of that name, it is the place of the larger population.
\<close>

theorem dedup_keeps_higher_population:
  assumes "sort_values_ok w cities_data"
    and "a \<in> set (full_dataset w cities_data cities_id)"
    and "b \<in> set (full_dataset w cities_data cities_id)"
    and "nameascii (left_row a) = nameascii (left_row b)"
    and "pop_max (left_row b) < pop_max (left_row a)"
  shows "b \<notin> set (clear_dataset w cities_data cities_id) \<and>
         (\<exists>r. filter (\<lambda>x. nameascii (left_row x) = nameascii (left_row a))
                 (clear_dataset w cities_data cities_id) = [r] \<and>
              r \<in> set (full_dataset w cities_data cities_id) \<and>
              (\<forall>c\<in>set (full_dataset w cities_data cities_id).
                 nameascii (left_row c) = nameascii (left_row a) \<longrightarrow>
                 pop_max (left_row c) \<le> pop_max (left_row r)) \<and>
              ((\<forall>c\<in>set (full_dataset w cities_data cities_id).
                  nameascii (left_row c) = nameascii (left_row a) \<longrightarrow>
                  left_row c = left_row a \<or> left_row c = left_row b) \<longrightarrow>
               left_row r = left_row a))"
proof -
  let ?fd = "full_dataset w cities_data cities_id"
  let ?n = "nameascii (left_row a)"
  let ?same = "filter (\<lambda>x. nameascii (left_row x) = ?n) ?fd"
  have kept: "filter (\<lambda>x. nameascii (left_row x) = ?n) (clear_dataset w cities_data cities_id) =
      take 1 ?same"
    by (simp add: clear_dataset_def drop_duplicates_filter)
  have "a \<in> set ?same" using assms(2) by simp
  then obtain r rest where same: "?same = r # rest" by (cases ?same) auto
  then have t1: "take 1 ?same = [r]" by simp
  have "r \<in> set ?same" by (simp add: same)
  then have r: "r \<in> set ?fd" "nameascii (left_row r) = ?n" by simp_all
  have top: "pop_max (left_row c) \<le> pop_max (left_row r)"
    if "c \<in> set ?fd" "nameascii (left_row c) = ?n" for c
    using full_dataset_sorted[OF assms(1)] t1 that by (rule sorted_first_max)
  have a_le: "pop_max (left_row a) \<le> pop_max (left_row r)" using top[OF assms(2)] by simp
  have "b \<notin> set (clear_dataset w cities_data cities_id)"
  proof
    assume "b \<in> set (clear_dataset w cities_data cities_id)"
    then have "b \<in> set (filter (\<lambda>x. nameascii (left_row x) = ?n)
                  (clear_dataset w cities_data cities_id))"
      using assms(4) by simp
    then have "b = r" unfolding kept t1 by simp
    then show False using a_le assms(5) by simp
  qed
  moreover have "left_row r = left_row a"
    if "\<forall>c\<in>set ?fd. nameascii (left_row c) = ?n \<longrightarrow>
          left_row c = left_row a \<or> left_row c = left_row b"
  proof -
    from that r have "left_row r = left_row a \<or> left_row r = left_row b" by blast
    then show ?thesis using a_le assms(5) by auto
  qed
  ultimately show ?thesis using kept t1 r(1) top by auto
qed

theorem dedup_keeps_higher_population_witness:
  "sort_values_ok demo_world demo_places \<and>
   paris_fr \<in> set (full_dataset demo_world demo_places demo_catalog) \<and>
   paris_us \<in> set (full_dataset demo_world demo_places demo_catalog) \<and>
   nameascii (left_row paris_fr) = nameascii (left_row paris_us) \<and>
   pop_max (left_row paris_us) < pop_max (left_row paris_fr) \<and>
   paris_us \<notin> set (clear_dataset demo_world demo_places demo_catalog) \<and>
   filter (\<lambda>x. nameascii (left_row x) = nameascii (left_row paris_fr))
     (clear_dataset demo_world demo_places demo_catalog) = [paris_fr]"
proof -
  have h1: "sort_values_ok demo_world demo_places" by (rule demo_sort_values_ok)
  have h2: "paris_fr \<in> set (full_dataset demo_world demo_places demo_catalog)"
    by (simp add: demo_full_dataset)
  have h3: "paris_us \<in> set (full_dataset demo_world demo_places demo_catalog)"
    by (simp add: demo_full_dataset)
  have h4: "nameascii (left_row paris_fr) = nameascii (left_row paris_us)"
    by (simp add: paris_fr_def paris_us_def)
  have h5: "pop_max (left_row paris_us) < pop_max (left_row paris_fr)"
    by (simp add: paris_fr_def paris_us_def)
  have two: "\<forall>c\<in>set (full_dataset demo_world demo_places demo_catalog).
      nameascii (left_row c) = nameascii (left_row paris_fr) \<longrightarrow>
      left_row c = left_row paris_fr \<or> left_row c = left_row paris_us"
    by (simp add: demo_full_dataset) (simp add: paris_fr_def paris_us_def)
  from dedup_keeps_higher_population[OF h1 h2 h3 h4 h5] obtain r where
    r: "filter (\<lambda>x. nameascii (left_row x) = nameascii (left_row paris_fr))
          (clear_dataset demo_world demo_places demo_catalog) = [r]"
    and out: "paris_us \<notin> set (clear_dataset demo_world demo_places demo_catalog)"
    by blast
  have "filter (\<lambda>x. nameascii (left_row x) = nameascii (left_row paris_fr))
          (clear_dataset demo_world demo_places demo_catalog) = [paris_fr]"
    by (simp add: demo_clear_dataset) (simp add: paris_fr_def)
  then show ?thesis using h1 h2 h3 h4 h5 out by blast
qed

text \<open>
  C6. Whatever the selection count and the tables: every request is for the ID of a merged
  row whose two country codes agree, every row handed to \<^verbatim>\<open>plot_on_map\<close> is such a merged
  row, and a returned table is the projection of such rows.
\<close>

theorem no_country_mismatch_in_output:
  "(\<forall>c. HttpGet c \<in> set (fst (select_cities w selection appid cities_data cities_id)) \<longrightarrow>
        (\<exists>y\<in>set (fulldataset w cities_data cities_id).
           codes_match y \<and> id_col (right_row y) = c)) \<and>
   (\<forall>ttl out. Plot ttl out \<in> set (fst (select_cities w selection appid cities_data cities_id)) \<longrightarrow>
        (\<forall>x\<in>set out. codes_match x \<and>
           (\<exists>y\<in>set (fulldataset w cities_data cities_id).
              left_row y = left_row x \<and> right_row y = right_row x))) \<and>
   (\<forall>tbl. snd (select_cities w selection appid cities_data cities_id) = Inr tbl \<longrightarrow>
        (\<exists>final. snd (final_dataset w selection appid cities_data cities_id) = Inr final \<and>
           tbl = map project final \<and>
           (\<forall>x\<in>set final. codes_match x \<and>
              (\<exists>y\<in>set (fulldataset w cities_data cities_id).
                 left_row y = left_row x \<and> right_row y = right_row x))))"
proof -
  let ?sel = "sel_dataset w selection cities_data cities_id"
  let ?full = "fulldataset w cities_data cities_id"
  obtain t res where f: "final_dataset w selection appid cities_data cities_id = (t, res)"
    by (cases "final_dataset w selection appid cities_data cities_id")
  have fst_eq: "fst (select_cities w selection appid cities_data cities_id) = t"
    using f by (simp add: select_cities_def split: sum.splits)
  have from_sel: "codes_match x \<and> (\<exists>y\<in>set ?full. left_row y = left_row x \<and> right_row y = right_row x)"
    if "y \<in> set ?sel" "left_row x = left_row y" "right_row x = right_row y"
    for x :: sel_row and y
    using set_sel_dataset[OF that(1)] that(2,3) by (auto simp: codes_match_def)
  have gets: "\<exists>y\<in>set ?full. codes_match y \<and> id_col (right_row y) = c" if "HttpGet c \<in> set t" for c
  proof -
    from final_dataset_trace[OF f that] obtain y where "y \<in> set ?sel" "id_col (right_row y) = c"
      by blast
    then show ?thesis using set_sel_dataset by blast
  qed
  have plots: "codes_match x \<and>
      (\<exists>y\<in>set ?full. left_row y = left_row x \<and> right_row y = right_row x)"
    if "Plot ttl out \<in> set t" "x \<in> set out" for ttl out x
  proof -
    from final_dataset_trace[OF f that(1)] that(2) obtain y where
      "y \<in> set ?sel" "left_row x = left_row y" "right_row x = right_row y"
      by blast
    then show ?thesis by (rule from_sel)
  qed
  have returned: "\<exists>final. snd (final_dataset w selection appid cities_data cities_id) = Inr final \<and>
      tbl = map project final \<and>
      (\<forall>x\<in>set final. codes_match x \<and>
         (\<exists>y\<in>set ?full. left_row y = left_row x \<and> right_row y = right_row x))"
    if "snd (select_cities w selection appid cities_data cities_id) = Inr tbl" for tbl
  proof -
    from that f obtain final where res: "res = Inr final" and tbl: "tbl = map project final"
      by (auto simp: select_cities_def split: sum.splits)
    from f[unfolded res] obtain t1 timestr rows where
      "t = t1 @ [Plot (TitleClouds selection) (fillna rows), Plot (TitleClear timestr) final]"
      by (rule final_dataset_Inr)
    then have "Plot (TitleClear timestr) final \<in> set t" by simp
    then have "\<forall>x\<in>set final. codes_match x \<and>
        (\<exists>y\<in>set ?full. left_row y = left_row x \<and> right_row y = right_row x)"
      using plots by blast
    then show ?thesis using f res tbl by auto
  qed
  show ?thesis unfolding fst_eq using gets plots returned by blast
qed

theorem no_country_mismatch_in_output_witness:
  "paris_fr_us \<in> set (fulldataset demo_world demo_places demo_catalog) \<and>
   \<not> codes_match paris_fr_us \<and>
   HttpGet 1 \<in> set (fst (select_cities demo_world 3 ''key'' demo_places demo_catalog)) \<and>
   HttpGet 2 \<notin> set (fst (select_cities demo_world 3 ''key'' demo_places demo_catalog)) \<and>
   (\<exists>y\<in>set (fulldataset demo_world demo_places demo_catalog).
      codes_match y \<and> id_col (right_row y) = 1) \<and>
   snd (select_cities demo_world 3 ''key'' demo_places demo_catalog) =
     Inr [(''Paris'', Val (JNum 5)), (''Lyon'', Val (JNum 0))] \<and>
   (\<exists>final. snd (final_dataset demo_world 3 ''key'' demo_places demo_catalog) = Inr final \<and>
      [(''Paris'', Val (JNum 5)), (''Lyon'', Val (JNum 0))] = map project final \<and>
      (\<forall>x\<in>set final. codes_match x \<and>
         (\<exists>y\<in>set (fulldataset demo_world demo_places demo_catalog).
            left_row y = left_row x \<and> right_row y = right_row x)))"
proof -
  have h1: "paris_fr_us \<in> set (fulldataset demo_world demo_places demo_catalog)"
    by (simp add: select_cities_defs demo_defs paris_fr_us_def)
  have h2: "\<not> codes_match paris_fr_us" by (simp add: codes_match_def paris_fr_us_def)
  have h3: "HttpGet 1 \<in> set (fst (select_cities demo_world 3 ''key'' demo_places demo_catalog))"
    by (simp add: select_cities_defs get_weather_defs demo_defs)
  have h4: "HttpGet 2 \<notin> set (fst (select_cities demo_world 3 ''key'' demo_places demo_catalog))"
    by (simp add: select_cities_defs get_weather_defs demo_defs)
  have h5: "snd (select_cities demo_world 3 ''key'' demo_places demo_catalog) =
     Inr [(''Paris'', Val (JNum 5)), (''Lyon'', Val (JNum 0))]"
    by (simp add: select_cities_defs get_weather_defs demo_defs)
  from no_country_mismatch_in_output[of demo_world 3 "''key''" demo_places demo_catalog]
  show ?thesis using h1 h2 h3 h4 h5 by blast
qed

text \<open>
  C7, at a failing input. Oslo is the only candidate and the response for its ID has status
  500 with the provider's JSON error body. The diagnostic is printed, then
  \<^verbatim>\<open>resp_j['dt']\<close> raises \<^verbatim>\<open>KeyError\<close> on the error body and no table is returned.
\<close>

theorem only_city_500_raises:
  "sel_dataset demo_world 1 oslo_places oslo_catalog =
     [\<lparr>left_row = \<lparr>nameascii = ''Oslo'', iso_a2 = ''NO'', pop_max = 1000000\<rparr>,
       right_row = \<lparr>name = ''Oslo'', country = ''NO'', id_col = 5\<rparr>\<rparr>] \<and>
   requests_get demo_world 0 (api_path @ ''key'') 5 =
     Inr \<lparr>status_code = 500, resp_text = ''internal error'',
          json = Some (body_error ''500'' ''internal error'')\<rparr> \<and>
   select_cities demo_world 1 ''key'' oslo_places oslo_catalog =
     ([HttpGet 5, PrintNotSuccessful 5, PrintStatus 500 ''internal error''],
      Inl (KeyError (StrKey ''dt'')))"
  by (simp add: select_cities_defs get_weather_defs demo_defs)

text \<open>
  C9. On an empty ID list \<^verbatim>\<open>get_weather\<close> raises \<^verbatim>\<open>UnboundLocalError\<close> before any
  request, and a run of \<^verbatim>\<open>select_cities\<close> whose selection is empty ends with that
  exception instead of returning a table.
\<close>

theorem empty_id_list_fails_fast:
  "get_weather w API_URL [] = ([], Inl UnboundLocalError) \<and>
   (sel_dataset w selection cities_data cities_id = [] \<longrightarrow>
      select_cities w selection appid cities_data cities_id = ([], Inl UnboundLocalError))"
  by (simp add: get_weather_def init_state_def select_cities_def final_dataset_def)

theorem empty_id_list_fails_fast_witness:
  "sel_dataset demo_world 50 demo_places mismatch_catalog = [] \<and>
   get_weather demo_world demo_url [] = ([], Inl UnboundLocalError) \<and>
   select_cities demo_world 50 ''key'' demo_places mismatch_catalog = ([], Inl UnboundLocalError)"
proof -
  have h: "sel_dataset demo_world 50 demo_places mismatch_catalog = []"
    by (simp add: select_cities_defs demo_defs)
  from empty_id_list_fails_fast[of demo_world demo_url 50 demo_places mismatch_catalog "''key''"]
  show ?thesis using h by blast
qed

end
